theory Spec2Isabelle
  imports Main
begin

section \<open>Values, promises and the effect trace\<close>

text \<open>
  JavaScript values as far as the dispatch core inspects them: \<open>undefined\<close>, \<open>null\<close>,
  booleans, numbers (integers suffice here), strings and objects. An object is the list
  of the properties that \<open>obj[key]\<close> can see.
\<close>

datatype jsval =
    JUndefined
  | JNull
  | JBool bool
  | JNum int
  | JStr string
  | JObj "(string \<times> jsval) list"

text \<open>The truthiness test of \<open>if (v)\<close> and \<open>v || ''\<close>.\<close>

fun truthy :: "jsval \<Rightarrow> bool" where
  "truthy JUndefined = False"
| "truthy JNull = False"
| "truthy (JBool b) = b"
| "truthy (JNum n) = (n \<noteq> 0)"
| "truthy (JStr s) = (s \<noteq> [])"
| "truthy (JObj ps) = True"

text \<open>A value is non-null when it is neither \<open>null\<close> nor \<open>undefined\<close>.\<close>

fun nonNull :: "jsval \<Rightarrow> bool" where
  "nonNull JUndefined = False"
| "nonNull JNull = False"
| "nonNull v = True"

text \<open>An own property of an object value, \<open>undefined\<close> when there is none.\<close>

fun ownProp :: "jsval \<Rightarrow> string \<Rightarrow> jsval" where
  "ownProp (JObj ps) key = (case map_of ps key of Some v \<Rightarrow> v | None \<Rightarrow> JUndefined)"
| "ownProp v key = JUndefined"

text \<open>
  Property access \<open>obj[key]\<close> on a truthy value: an object's own property if it has
  one, and otherwise what the prototype chain gives. The prototypes belong to the
  platform (\<open>'abc'.length\<close>, \<open>{}.toString\<close>): \<open>proto v key\<close> is what they give for
  \<open>key\<close> on \<open>v\<close>, \<open>undefined\<close> when they have nothing.
\<close>

fun getProp :: "(jsval \<Rightarrow> string \<Rightarrow> jsval) \<Rightarrow> jsval \<Rightarrow> string \<Rightarrow> jsval" where
  "getProp proto (JObj ps) key =
     (case map_of ps key of Some v \<Rightarrow> v | None \<Rightarrow> proto (JObj ps) key)"
| "getProp proto v key = proto v key"

text \<open>\<open>data || ''\<close>\<close>

definition orEmpty :: "jsval \<Rightarrow> jsval" where
  "orEmpty data = (if truthy data then data else JStr [])"

text \<open>
  The state of a promise once nothing more can happen to it. \<open>Pending\<close> is a promise
  that is never settled: no code holds its \<open>resolve\<close> or \<open>reject\<close> any longer.
\<close>

datatype 'a promise = Pending | Fulfilled 'a | Rejected string

text \<open>How a call completes: it returns a value or throws.\<close>

datatype 'a completion = Returns 'a | Throws string

text \<open>\<open>String.prototype.split\<close> with a one-character separator.\<close>

fun split_str :: "char \<Rightarrow> string \<Rightarrow> string list" where
  "split_str c [] = [[]]"
| "split_str c (x # xs) =
     (if x = c then [] # split_str c xs
      else (case split_str c xs of
              [] \<Rightarrow> [[x]]
            | w # ws \<Rightarrow> (x # w) # ws))"

text \<open>\<open>arr[i]\<close>: reading past the end gives \<open>undefined\<close>, here \<open>None\<close>.\<close>

definition nth_opt :: "'a list \<Rightarrow> nat \<Rightarrow> 'a option" where
  "nth_opt xs i = (if i < length xs then Some (xs ! i) else None)"

text \<open>\<open>String.prototype.startsWith\<close>\<close>

definition startsWith :: "string \<Rightarrow> string \<Rightarrow> bool" where
  "startsWith s p = (take (length p) s = p)"

text \<open>\<open>Array.prototype.includes\<close> on an array of strings.\<close>

definition array_includes :: "string list \<Rightarrow> string \<Rightarrow> bool" where
  "array_includes xs x = (x \<in> set xs)"

subsection \<open>Callback filter (utils.js)\<close>

text \<open>
  \<open>checkIfEventisEnabled\<close>: the executor calls \<open>resolve()\<close> when the event is not in
  \<open>disabledCallbacks\<close> and does nothing otherwise. \<open>disabledCallbacks\<close> comes from the
  configuration module and is a parameter here.
\<close>

definition checkIfEventisEnabled :: "string list \<Rightarrow> string \<Rightarrow> jsval promise" where
  "checkIfEventisEnabled disabledCallbacks event =
     (if \<not> array_includes disabledCallbacks event then Fulfilled JUndefined else Pending)"

text \<open>
  \<open>p.then(k)\<close> on a state \<open>w\<close>: the continuation runs when \<open>p\<close> is fulfilled and never
  otherwise. \<open>p.catch(h)\<close> runs \<open>h\<close> when \<open>p\<close> is rejected.
\<close>

definition then_do :: "'a promise \<Rightarrow> ('a \<Rightarrow> 's \<Rightarrow> 's) \<Rightarrow> 's \<Rightarrow> 's" where
  "then_do p k w = (case p of Fulfilled v \<Rightarrow> k v w | Pending \<Rightarrow> w | Rejected e \<Rightarrow> w)"

definition catch_do :: "'a promise \<Rightarrow> (string \<Rightarrow> 's \<Rightarrow> 's) \<Rightarrow> 's \<Rightarrow> 's" where
  "catch_do p h w = (case p of Rejected e \<Rightarrow> h e w | Pending \<Rightarrow> w | Fulfilled v \<Rightarrow> w)"

subsection \<open>The state the core acts on\<close>

text \<open>
  Effects are recorded as traces: every HTTP POST issued, every log line written, every
  \<open>ws.send\<close>, \<open>ws.terminate\<close>, \<open>socket.destroy\<close> and \<open>server.close\<close> call, and
  every handshake an acceptor refused (socket and HTTP status), in order. Sockets and
  acceptors are named by numbers.
\<close>

datatype level = LvlDebug | LvlInfo | LvlError

record log_entry =
  log_level :: level
  log_fields :: "(string \<times> jsval) list"
  log_msg :: string

record http_post =
  post_url :: string
  post_body :: jsval
  post_headers :: "(string \<times> string) list"

datatype session_status = STARTING | QR_PENDING | CONNECTED | DISCONNECTED | TERMINATED

record session =
  session_id :: string
  status :: session_status
  qrPayload :: "string option"
  session_webhook :: string

type_synonym registry = "(string \<times> session) list"

text \<open>
  A \<open>WebSocketServer\<close> created with \<open>noServer: true\<close>: its identity and its \<open>clients\<close>
  set, in insertion order.
\<close>

record wss =
  wss_id :: nat
  clients :: "nat list"

record world =
  sessions :: registry
  posts :: "http_post list"
  logs :: "log_entry list"
  wssMap :: "string \<rightharpoonup> wss"
  wss_created :: nat
  closing :: "nat list"
  terminated :: "nat list"
  destroyed :: "nat list"
  aborted :: "(nat \<times> nat) list"
  sent :: "(nat \<times> jsval) list"

text \<open>The process at start: \<open>wssMap = new Map()\<close>, nothing done yet.\<close>

definition world0 :: world where
  "world0 = \<lparr>sessions = [], posts = [], logs = [], wssMap = Map.empty, wss_created = 0,
             closing = [], terminated = [], destroyed = [], aborted = [], sent = []\<rparr>"

subsection \<open>Webhook dispatcher (utils.js)\<close>

text \<open>
  What the network does with a POST is the environment's choice: \<open>axios_post\<close> says
  whether the promise of \<open>axios.post\<close> is fulfilled or rejected, and with what error.
\<close>

datatype outcome = Delivered | Failed string

text \<open>
  \<open>triggerWebhook\<close>: one \<open>axios.post\<close>, then one log line from \<open>then\<close> or from
  \<open>catch\<close>. The function body is a single expression statement, so the call returns
  \<open>undefined\<close>. \<open>globalApiKey\<close> comes from the configuration module.
\<close>

definition triggerWebhook ::
  "string \<Rightarrow> (http_post \<Rightarrow> outcome) \<Rightarrow> string \<Rightarrow> string \<Rightarrow> string \<Rightarrow> jsval \<Rightarrow> world
     \<Rightarrow> jsval completion \<times> world" where
  "triggerWebhook globalApiKey axios_post webhookURL sessionId dataType data w =
     (let req = \<lparr>post_url = webhookURL,
                 post_body = JObj [(''dataType'', JStr dataType), (''data'', data),
                                   (''sessionId'', JStr sessionId)],
                 post_headers = [(''x-api-key'', globalApiKey)]\<rparr>;
          entry = (case axios_post req of
                     Delivered \<Rightarrow>
                       \<lparr>log_level = LvlDebug,
                        log_fields = [(''sessionId'', JStr sessionId), (''dataType'', JStr dataType),
                                      (''data'', orEmpty data)],
                        log_msg = ''New webhook message sent to '' @ webhookURL\<rparr>
                   | Failed err \<Rightarrow>
                       \<lparr>log_level = LvlError,
                        log_fields = [(''sessionId'', JStr sessionId), (''dataType'', JStr dataType),
                                      (''err'', JStr err), (''data'', orEmpty data)],
                        log_msg = ''Failed to send new webhook message to '' @ webhookURL\<rparr>)
      in (Returns JUndefined, w\<lparr>posts := posts w @ [req], logs := logs w @ [entry]\<rparr>))"

subsection \<open>Readiness wait (utils.js)\<close>

text \<open>
  \<open>nestedPath.split('.').reduce((obj, key) => obj ? obj[key] : undefined, rootObj)\<close>
\<close>

definition nested :: "(jsval \<Rightarrow> string \<Rightarrow> jsval) \<Rightarrow> jsval \<Rightarrow> string \<Rightarrow> jsval" where
  "nested proto rootObj nestedPath =
     foldl (\<lambda>obj key. if truthy obj then getProp proto obj key else JUndefined)
       rootObj (split_str CHR ''.'' nestedPath)"

text \<open>
  \<open>checkObject\<close>, the polling closure of \<open>waitForNestedObject\<close>. The root object is
  mutated by others between polls: \<open>rootObj k\<close> is what poll number \<open>k\<close> sees. When a
  timer armed by \<open>setTimeout(checkObject, interval)\<close> fires is the environment's
  choice: \<open>now k\<close> is what \<open>Date.now()\<close> returns at poll \<open>k\<close>. The result is the
  promise's settled state and the number of the poll that settled it; there is no
  result when no poll ever settles it. The error line logged before rejecting is left
  out.
\<close>

partial_function (option) checkObject ::
  "(jsval \<Rightarrow> string \<Rightarrow> jsval) \<Rightarrow> (nat \<Rightarrow> jsval) \<Rightarrow> (nat \<Rightarrow> int) \<Rightarrow> string \<Rightarrow> int \<Rightarrow> int \<Rightarrow> nat
     \<Rightarrow> (jsval promise \<times> nat) option" where
  "checkObject proto rootObj now nestedPath start maxWaitTime k =
     (if truthy (nested proto (rootObj k) nestedPath) then Some (Fulfilled JUndefined, k)
      else if now k - start > maxWaitTime
        then Some (Rejected ''Timeout waiting for nested object'', k)
      else checkObject proto rootObj now nestedPath start maxWaitTime (Suc k))"

text \<open>
  \<open>waitForNestedObject(rootObj, nestedPath, maxWaitTime = 10000, interval = 100)\<close>:
  \<open>start\<close> is \<open>Date.now()\<close> at the call, and \<open>clock interval\<close> gives the readings at
  the polls when every timer is armed with \<open>interval\<close>.
\<close>

definition waitForNestedObject ::
  "(jsval \<Rightarrow> string \<Rightarrow> jsval) \<Rightarrow> (nat \<Rightarrow> jsval) \<Rightarrow> (int \<Rightarrow> nat \<Rightarrow> int) \<Rightarrow> int \<Rightarrow> string
     \<Rightarrow> int option \<Rightarrow> int option \<Rightarrow> (jsval promise \<times> nat) option" where
  "waitForNestedObject proto rootObj clock start nestedPath maxWaitTime interval =
     checkObject proto rootObj
       (clock (case interval of None \<Rightarrow> 100 | Some i \<Rightarrow> i))
       nestedPath start
       (case maxWaitTime of None \<Rightarrow> 10000 | Some m \<Rightarrow> m)
       0"

text \<open>The state of the promise that \<open>waitForNestedObject\<close> returns.\<close>

definition promise_of :: "('a promise \<times> nat) option \<Rightarrow> 'a promise" where
  "promise_of r = (case r of None \<Rightarrow> Pending | Some (p, n) \<Rightarrow> p)"

subsection \<open>WebSocket hub (websocket.js)\<close>

text \<open>
  \<open>initWebSocketServer\<close>: \<open>enableWebSocket\<close> comes from the configuration module. A new
  acceptor takes the next free number.
\<close>

definition initWebSocketServer :: "bool \<Rightarrow> string \<Rightarrow> world \<Rightarrow> world" where
  "initWebSocketServer enableWebSocket sessionId w =
     (if enableWebSocket then
        (case wssMap w sessionId of
           Some server \<Rightarrow> w
         | None \<Rightarrow>
             w\<lparr>wssMap := (wssMap w)(sessionId \<mapsto> \<lparr>wss_id = wss_created w, clients = []\<rparr>),
               wss_created := Suc (wss_created w)\<rparr>)
      else w)"

text \<open>
  What the acceptor's \<open>close\<close> does with its callback is the library's choice: it calls
  it without an error, calls it with one, or has not called it.
\<close>

datatype close_outcome = CloseConfirmed | CloseError string | CloseNever

text \<open>
  \<open>terminateWebSocketServer\<close>: \<open>server.close\<close> is called first, then every client is
  terminated, then the entry is deleted, then the closure signal is awaited. The promise
  of the async function is the first component.
\<close>

definition terminateWebSocketServer ::
  "close_outcome \<Rightarrow> string \<Rightarrow> world \<Rightarrow> jsval promise \<times> world" where
  "terminateWebSocketServer closed sessionId w =
     (case wssMap w sessionId of
        None \<Rightarrow> (Fulfilled JUndefined, w)
      | Some server \<Rightarrow>
          ((case closed of
              CloseConfirmed \<Rightarrow> Fulfilled JUndefined
            | CloseError err \<Rightarrow> Rejected err
            | CloseNever \<Rightarrow> Pending),
           w\<lparr>closing := closing w @ [wss_id server],
             terminated := terminated w @ clients server,
             wssMap := (wssMap w)(sessionId := None)\<rparr>))"

text \<open>
  \<open>triggerWebSocket\<close>: the text sent is \<open>JSON.stringify\<close> of the recorded object.
\<close>

definition triggerWebSocket :: "string \<Rightarrow> string \<Rightarrow> jsval \<Rightarrow> world \<Rightarrow> world" where
  "triggerWebSocket sessionId dataType data w =
     (case wssMap w sessionId of
        Some server \<Rightarrow>
          w\<lparr>sent := sent w @
                 map (\<lambda>ws. (ws, JObj [(''dataType'', JStr dataType), (''data'', data),
                                       (''sessionId'', JStr sessionId)]))
                     (clients server)\<rparr>
      | None \<Rightarrow> w)"

text \<open>An upgrade request: its \<open>Host\<close> header, if any, and its request target.\<close>

record request =
  req_host :: "string option"
  req_url :: string

definition socket_destroy :: "nat \<Rightarrow> world \<Rightarrow> world" where
  "socket_destroy socket w = w\<lparr>destroyed := destroyed w @ [socket]\<rparr>"

text \<open>
  The acceptor's own \<open>handleUpgrade\<close> belongs to the \<open>ws\<close> library, which checks the
  handshake of the request: \<open>handshake request\<close> is \<open>None\<close> when the handshake is well
  formed and the HTTP status of the refusal otherwise. On a well-formed handshake the
  acceptor adds the connection to its \<open>clients\<close> set and calls back; the callback emits
  \<open>connection\<close>, whose listener (registered by \<open>initWebSocketServer\<close>) writes a debug
  line. On a malformed one the acceptor answers with the status itself and closes the
  socket; no client is added and the callback is not called.
\<close>

definition wss_handleUpgrade ::
  "(request \<Rightarrow> nat option) \<Rightarrow> string \<Rightarrow> wss \<Rightarrow> request \<Rightarrow> nat \<Rightarrow> world \<Rightarrow> world" where
  "wss_handleUpgrade handshake sessionId server request socket w =
     (case handshake request of
        None \<Rightarrow>
          w\<lparr>wssMap := (wssMap w)(sessionId \<mapsto>
               server\<lparr>clients := (if socket \<in> set (clients server) then clients server
                                    else clients server @ [socket])\<rparr>),
            logs := logs w @ [\<lparr>log_level = LvlDebug, log_fields = [(''sessionId'', JStr sessionId)],
                                log_msg = ''WebSocket connection established''\<rparr>]\<rparr>
      | Some code \<Rightarrow> w\<lparr>aborted := aborted w @ [(socket, code)]\<rparr>)"

text \<open>
  \<open>handleUpgrade\<close>: \<open>urlPathname url base\<close> stands for \<open>new URL(url, base).pathname\<close>,
  the platform's URL parser. It is \<open>None\<close> when the parser rejects the target or the
  base (an empty host as in \<open>//\<close>, a malformed \<open>Host\<close> header): the constructor then
  throws a \<open>TypeError\<close>, nothing in \<open>handleUpgrade\<close> catches it, and no branch below is
  reached.
\<close>

definition handleUpgrade ::
  "(string \<Rightarrow> string \<Rightarrow> string option) \<Rightarrow> (request \<Rightarrow> nat option) \<Rightarrow> request \<Rightarrow> nat \<Rightarrow> world
     \<Rightarrow> jsval completion \<times> world" where
  "handleUpgrade urlPathname handshake request socket w =
     (let baseUrl = ''ws://'' @ (case req_host request of Some h \<Rightarrow> h | None \<Rightarrow> ''undefined'') @ ''/''
      in case urlPathname (req_url request) baseUrl of
           None \<Rightarrow> (Throws ''Invalid URL'', w)
         | Some pathname \<Rightarrow>
             (Returns JUndefined,
              if startsWith pathname ''/ws/'' then
                (case nth_opt (split_str CHR ''/'' pathname) 2 of
                   Some sessionId \<Rightarrow>
                     (case wssMap w sessionId of
                        Some server \<Rightarrow> wss_handleUpgrade handshake sessionId server request socket w
                      | None \<Rightarrow> socket_destroy socket w)
                 | None \<Rightarrow> socket_destroy socket w)
              else socket_destroy socket w))"

subsection \<open>Server wiring (server.js)\<close>

text \<open>
  \<open>if (enableWebSocket) { server.on('upgrade', ...) }\<close>: the listener exists only when
  websocket mode is enabled. An upgrade request that finds no listener is not touched
  by this program; the HTTP server then treats it as an ordinary request. What the
  listener throws is not caught here either.
\<close>

definition upgradeListener ::
  "bool \<Rightarrow> (string \<Rightarrow> string \<Rightarrow> string option) \<Rightarrow> (request \<Rightarrow> nat option)
     \<Rightarrow> (request \<Rightarrow> nat \<Rightarrow> world \<Rightarrow> jsval completion \<times> world) option" where
  "upgradeListener enableWebSocket urlPathname handshake =
     (if enableWebSocket then Some (handleUpgrade urlPathname handshake) else None)"

definition emitUpgrade ::
  "(request \<Rightarrow> nat \<Rightarrow> world \<Rightarrow> jsval completion \<times> world) option \<Rightarrow> request \<Rightarrow> nat \<Rightarrow> world
     \<Rightarrow> jsval completion \<times> world" where
  "emitUpgrade listener request socket w =
     (case listener of Some h \<Rightarrow> h request socket w | None \<Rightarrow> (Returns JUndefined, w))"

text \<open>
  The calls that reach the hub during a process lifetime: the four exported functions,
  and an upgrade request arriving at the HTTP server. A call that throws leaves the
  state as it was when it threw; the run goes on from there.
\<close>

datatype hub_op =
    OpInit string
  | OpTerminate close_outcome string
  | OpTrigger string string jsval
  | OpHandleUpgrade request nat
  | OpIncomingUpgrade request nat

fun hub_step ::
  "bool \<Rightarrow> (string \<Rightarrow> string \<Rightarrow> string option) \<Rightarrow> (request \<Rightarrow> nat option) \<Rightarrow> world \<Rightarrow> hub_op
     \<Rightarrow> world" where
  "hub_step en up hs w (OpInit sessionId) = initWebSocketServer en sessionId w"
| "hub_step en up hs w (OpTerminate closed sessionId) =
     snd (terminateWebSocketServer closed sessionId w)"
| "hub_step en up hs w (OpTrigger sessionId dataType data) =
     triggerWebSocket sessionId dataType data w"
| "hub_step en up hs w (OpHandleUpgrade request socket) =
     snd (handleUpgrade up hs request socket w)"
| "hub_step en up hs w (OpIncomingUpgrade request socket) =
     snd (emitUpgrade (upgradeListener en up hs) request socket w)"

definition hub_run ::
  "bool \<Rightarrow> (string \<Rightarrow> string \<Rightarrow> string option) \<Rightarrow> (request \<Rightarrow> nat option) \<Rightarrow> hub_op list \<Rightarrow> world
     \<Rightarrow> world" where
  "hub_run en up hs ops w = foldl (hub_step en up hs) w ops"


subsection \<open>Session controller (controllers/sessionController.js)\<close>

record response =
  res_status :: nat
  res_body :: jsval

text \<open>\<open>sendErrorResponse\<close> (utils.js)\<close>

definition sendErrorResponse :: "nat \<Rightarrow> string \<Rightarrow> response" where
  "sendErrorResponse st msg =
     \<lparr>res_status = st, res_body = JObj [(''success'', JBool False), (''error'', JStr msg)]\<rparr>"

text \<open>
  What \<open>setupSession\<close> hands back; the client object changes while it initialises, so
  \<open>client r k\<close> is the object as poll number \<open>k\<close> of the readiness wait sees it.
\<close>

record setup_return =
  success :: bool
  message :: string
  client :: "nat \<Rightarrow> jsval"

text \<open>
  \<open>startSession\<close>, given what \<open>await setupSession(sessionId)\<close> produced (\<open>Inl\<close> when it
  threw); \<open>start\<close> and \<open>clock\<close> are the clock readings of the readiness wait. The
  response is \<open>None\<close> when the handler waits for ever. The error line logged in the
  \<open>catch\<close> block is left out.
\<close>

definition startSession ::
  "(jsval \<Rightarrow> string \<Rightarrow> jsval) \<Rightarrow> (int \<Rightarrow> nat \<Rightarrow> int) \<Rightarrow> int \<Rightarrow> string + setup_return
     \<Rightarrow> response option" where
  "startSession proto clock start setupSessionResult =
     (case setupSessionResult of
        Inl err \<Rightarrow> Some (sendErrorResponse 500 err)
      | Inr setupSessionReturn \<Rightarrow>
          if \<not> success setupSessionReturn
          then Some (sendErrorResponse 422 (message setupSessionReturn))
          else (case promise_of (waitForNestedObject proto (client setupSessionReturn) clock start
                                   ''pupPage'' None None) of
                  Fulfilled v \<Rightarrow>
                    Some \<lparr>res_status = 200,
                          res_body = JObj [(''success'', JBool True),
                                           (''message'', JStr (message setupSessionReturn))]\<rparr>
                | Rejected err \<Rightarrow> Some (sendErrorResponse 500 err)
                | Pending \<Rightarrow> None))"

subsection \<open>Session registry\<close>

datatype reg_error = Conflict | NotFound

text \<open>
  Modelled from the spec: the session registry's operations (sessions.js, which defines
  \<open>setupSession\<close>, \<open>deleteSession\<close>, \<open>reloadSession\<close> and \<open>flushSessions\<close>, is not
  among the sources). The registry is the list of its entries, so that the number of
  entries for an id is something to prove and not a property of the type.
\<close>

definition active :: "registry \<Rightarrow> string \<Rightarrow> bool" where
  "active reg sessionId =
     list_ex (\<lambda>e. fst e = sessionId \<and> status (snd e) \<noteq> TERMINATED) reg"

definition entries :: "registry \<Rightarrow> string \<Rightarrow> session list" where
  "entries reg sessionId = map snd (filter (\<lambda>e. fst e = sessionId) reg)"

text \<open>
  Modelled from the spec: \<open>create(id, webhookOverride?)\<close> fails with \<open>Conflict\<close> if an
  active (non-terminated) session with \<open>id\<close> already exists; on success it inserts a
  \<open>Session\<close> in \<open>STARTING\<close> whose webhook URL is the override or the process-wide
  default.
\<close>

definition create ::
  "string \<Rightarrow> string option \<Rightarrow> string \<Rightarrow> registry \<Rightarrow> (reg_error + session) \<times> registry" where
  "create sessionId webhookOverride baseWebhookURL reg =
     (if active reg sessionId then (Inl Conflict, reg)
      else
        (let s = \<lparr>session_id = sessionId, status = STARTING, qrPayload = None,
                  session_webhook = (case webhookOverride of Some u \<Rightarrow> u | None \<Rightarrow> baseWebhookURL)\<rparr>
         in (Inr s, reg @ [(sessionId, s)])))"

text \<open>
  Modelled from the spec: \<open>terminate(id)\<close> removes the \<open>Session\<close> from the registry;
  terminating a missing id returns \<open>NotFound\<close>.
\<close>

definition terminate :: "string \<Rightarrow> registry \<Rightarrow> (reg_error + unit) \<times> registry" where
  "terminate sessionId reg =
     (if list_ex (\<lambda>e. fst e = sessionId) reg
      then (Inr (), filter (\<lambda>e. fst e \<noteq> sessionId) reg)
      else (Inl NotFound, reg))"

text \<open>Modelled from the spec: \<open>restart(id)\<close>; the session re-enters \<open>STARTING\<close>.\<close>

definition restart :: "string \<Rightarrow> registry \<Rightarrow> (reg_error + unit) \<times> registry" where
  "restart sessionId reg =
     (if list_ex (\<lambda>e. fst e = sessionId) reg
      then (Inr (), map (\<lambda>e. if fst e = sessionId then (fst e, (snd e)\<lparr>status := STARTING\<rparr>) else e) reg)
      else (Inl NotFound, reg))"

text \<open>
  Modelled from the spec: \<open>sweep(inactiveOnly)\<close> terminates every session whose status
  is not \<open>CONNECTED\<close> when \<open>inactiveOnly\<close> is true, or every session when false.
\<close>

definition sweep :: "bool \<Rightarrow> registry \<Rightarrow> registry" where
  "sweep inactiveOnly reg =
     filter (\<lambda>e. inactiveOnly \<and> status (snd e) = CONNECTED) reg"

text \<open>Modelled from the spec: the state machine's table, applied by the supervisor.\<close>

datatype client_event = QrReceived string | Ready | Disconnected

fun transition :: "client_event \<Rightarrow> session \<Rightarrow> session" where
  "transition (QrReceived qr) s =
     (if status s = STARTING then s\<lparr>status := QR_PENDING, qrPayload := Some qr\<rparr> else s)"
| "transition Ready s =
     (if status s = STARTING \<or> status s = QR_PENDING
      then s\<lparr>status := CONNECTED, qrPayload := None\<rparr> else s)"
| "transition Disconnected s =
     (if status s = CONNECTED then s\<lparr>status := DISCONNECTED, qrPayload := None\<rparr> else s)"

definition on_event :: "string \<Rightarrow> client_event \<Rightarrow> registry \<Rightarrow> registry" where
  "on_event sessionId ev reg =
     map (\<lambda>e. if fst e = sessionId then (fst e, transition ev (snd e)) else e) reg"

datatype reg_op =
    Create string "string option"
  | Terminate string
  | Restart string
  | Sweep bool
  | ClientEvent string client_event

fun reg_step :: "string \<Rightarrow> registry \<Rightarrow> reg_op \<Rightarrow> registry" where
  "reg_step base reg (Create sessionId webhookOverride) = snd (create sessionId webhookOverride base reg)"
| "reg_step base reg (Terminate sessionId) = snd (terminate sessionId reg)"
| "reg_step base reg (Restart sessionId) = snd (restart sessionId reg)"
| "reg_step base reg (Sweep inactiveOnly) = sweep inactiveOnly reg"
| "reg_step base reg (ClientEvent sessionId ev) = on_event sessionId ev reg"

definition reg_run :: "string \<Rightarrow> reg_op list \<Rightarrow> registry \<Rightarrow> registry" where
  "reg_run base ops reg = foldl (reg_step base) reg ops"

text \<open>The operations that take a session out of the registry.\<close>

fun removes :: "string \<Rightarrow> reg_op \<Rightarrow> bool" where
  "removes sid (Terminate sessionId) = (sessionId = sid)"
| "removes sid (Sweep inactiveOnly) = True"
| "removes sid op = False"

text \<open>
  The registry invariant: ids are pairwise distinct, every entry is filed under its own
  id, and no entry is \<open>TERMINATED\<close>.
\<close>

definition reg_inv :: "registry \<Rightarrow> bool" where
  "reg_inv reg =
     (distinct (map fst reg)
      \<and> list_all (\<lambda>e. session_id (snd e) = fst e \<and> status (snd e) \<noteq> TERMINATED) reg)"

subsection \<open>Event dispatch\<close>

record envelope =
  env_sessionId :: string
  env_dataType :: string
  env_data :: jsval
  env_timestamp :: int

text \<open>
  Modelled from the spec: the supervisor's dispatch of one envelope (the event bindings
  are in sessions.js, which is not among the sources): the envelope passes through the
  callback filter and, if not filtered, goes to the webhook dispatcher and to the
  websocket hub for its session id. The filter, the dispatcher and the hub are the
  functions of utils.js and websocket.js above.
\<close>

definition dispatchEnvelope ::
  "string list \<Rightarrow> string \<Rightarrow> (http_post \<Rightarrow> outcome) \<Rightarrow> string \<Rightarrow> envelope \<Rightarrow> world \<Rightarrow> world" where
  "dispatchEnvelope disabledCallbacks globalApiKey axios_post url env w =
     then_do (checkIfEventisEnabled disabledCallbacks (env_dataType env))
       (\<lambda>v w1. triggerWebSocket (env_sessionId env) (env_dataType env) (env_data env)
                  (snd (triggerWebhook globalApiKey axios_post url (env_sessionId env)
                          (env_dataType env) (env_data env) w1)))
       w"

text \<open>
  What happens during a process lifetime, as far as dispatch is concerned: a session
  emits an event (with the webhook URL resolved for that session), or the hub is
  operated on by session creation, restart, termination or an upgrade request.
\<close>

datatype core_op =
    Emit string envelope
  | HubInit string
  | HubTerminate close_outcome string
  | HubUpgrade request nat

fun core_step ::
  "string list \<Rightarrow> string \<Rightarrow> (http_post \<Rightarrow> outcome) \<Rightarrow> bool \<Rightarrow> (string \<Rightarrow> string \<Rightarrow> string option)
     \<Rightarrow> (request \<Rightarrow> nat option) \<Rightarrow> world \<Rightarrow> core_op \<Rightarrow> world" where
  "core_step dc key net en up hs w (Emit url env) = dispatchEnvelope dc key net url env w"
| "core_step dc key net en up hs w (HubInit sessionId) = initWebSocketServer en sessionId w"
| "core_step dc key net en up hs w (HubTerminate closed sessionId) =
     snd (terminateWebSocketServer closed sessionId w)"
| "core_step dc key net en up hs w (HubUpgrade request socket) =
     snd (emitUpgrade (upgradeListener en up hs) request socket w)"

definition core_run ::
  "string list \<Rightarrow> string \<Rightarrow> (http_post \<Rightarrow> outcome) \<Rightarrow> bool \<Rightarrow> (string \<Rightarrow> string \<Rightarrow> string option)
     \<Rightarrow> (request \<Rightarrow> nat option) \<Rightarrow> core_op list \<Rightarrow> world \<Rightarrow> world" where
  "core_run dc key net en up hs ops w = foldl (core_step dc key net en up hs) w ops"

text \<open>The POSTs and the websocket sends that carry a given dataType.\<close>

definition posts_of :: "string \<Rightarrow> world \<Rightarrow> http_post list" where
  "posts_of dataType w =
     filter (\<lambda>p. ownProp (post_body p) ''dataType'' = JStr dataType) (posts w)"

definition sent_of :: "string \<Rightarrow> world \<Rightarrow> (nat \<times> jsval) list" where
  "sent_of dataType w =
     filter (\<lambda>m. ownProp (snd m) ''dataType'' = JStr dataType) (sent w)"

subsection \<open>Sample states\<close>

text \<open>A hub with two sessions: \<open>a\<close> has two subscribers, \<open>b\<close> has one.\<close>

definition hub_example :: world where
  "hub_example =
     world0\<lparr>wssMap := [''a'' \<mapsto> \<lparr>wss_id = 0, clients = [1, 2]\<rparr>,
                        ''b'' \<mapsto> \<lparr>wss_id = 1, clients = [3]\<rparr>],
            wss_created := 2\<rparr>"

text \<open>
  A URL parser for requests whose target is a bare path; like the platform's, it rejects
  the target \<open>//\<close>, which names no host. And two handshake checks: one that finds
  every handshake well formed, one that refuses each with status 400.
\<close>

definition path_only :: "string \<Rightarrow> string \<Rightarrow> string option" where
  "path_only url base = (if url = ''//'' then None else Some url)"

definition good_handshake :: "request \<Rightarrow> nat option" where
  "good_handshake request = None"


definition upgrade_request :: "string \<Rightarrow> request" where
  "upgrade_request url = \<lparr>req_host = Some ''localhost:3000'', req_url = url\<rparr>"

text \<open>
  A short lifetime: session \<open>a\<close> gets its hub entry and one subscriber, then emits a
  \<open>message\<close> event and a \<open>qr\<close> event.
\<close>

definition sample_events :: "core_op list" where
  "sample_events =
     [HubInit ''a'', HubUpgrade (upgrade_request ''/ws/a'') 5,
      Emit ''http://hook/cb'' \<lparr>env_sessionId = ''a'', env_dataType = ''message'',
                                env_data = JStr ''hi'', env_timestamp = 1\<rparr>,
      Emit ''http://hook/cb'' \<lparr>env_sessionId = ''a'', env_dataType = ''qr'',
                                env_data = JStr ''code'', env_timestamp = 2\<rparr>]"

text \<open>Hub calls and upgrade requests with websocket mode disabled.\<close>

definition sample_hub_ops :: "hub_op list" where
  "sample_hub_ops =
     [OpInit ''a'', OpIncomingUpgrade (upgrade_request ''/ws/a'') 7,
      OpHandleUpgrade (upgrade_request ''/ws/a'') 8, OpTrigger ''a'' ''message'' JNull]"

text \<open>
  A client whose \<open>pupPage\<close> appears at the third poll and one that never gets it;
  prototypes that give a string its \<open>length\<close>, every value its \<open>toString\<close> and nothing
  else; and punctual timers, poll \<open>k\<close> running \<open>k\<close> intervals after the call at time 0.
\<close>

definition sample_client :: "nat \<Rightarrow> jsval" where
  "sample_client k = (if k < 2 then JObj [] else JObj [(''pupPage'', JObj [])])"

definition stuck_client :: "nat \<Rightarrow> jsval" where
  "stuck_client k = JObj []"

definition plain_proto :: "jsval \<Rightarrow> string \<Rightarrow> jsval" where
  "plain_proto v key =
     (if key = ''toString'' then JObj []
      else (case v of JStr s \<Rightarrow> (if key = ''length'' then JNum (int (length s)) else JUndefined)
            | _ \<Rightarrow> JUndefined))"

definition punctual :: "int \<Rightarrow> nat \<Rightarrow> int" where
  "punctual interval k = int k * interval"

text \<open>Registry traffic: session \<open>b\<close> connects; later, around session \<open>a\<close>, a QR code, a restart and the end of \<open>b\<close>.\<close>

definition sample_reg_ops :: "reg_op list" where
  "sample_reg_ops = [Create ''b'' None, ClientEvent ''b'' Ready]"

definition sample_between :: "reg_op list" where
  "sample_between = [ClientEvent ''a'' (QrReceived ''qr-1''), Restart ''a'', Terminate ''b'']"


section \<open>Properties\<close>

subsection \<open>Callback filter\<close>

text \<open>
  C2 (as amended). For every event dataType the eligibility check has no effect on any
  state (it takes and returns none) and returns a promise, not a boolean: the promise is
  fulfilled, with \<open>undefined\<close>, exactly when the dataType is not a member of the
  suppression list, and it stays pending exactly when the dataType is a member. It is
  never fulfilled with a boolean and never rejected.
\<close>

theorem checkIfEventisEnabled_promise:
  "(checkIfEventisEnabled dc e = Fulfilled JUndefined) = (e \<notin> set dc)
   \<and> (checkIfEventisEnabled dc e = Pending) = (e \<in> set dc)
   \<and> checkIfEventisEnabled dc e \<noteq> Fulfilled (JBool b)
   \<and> checkIfEventisEnabled dc e \<noteq> Rejected err"
  by (simp add: checkIfEventisEnabled_def array_includes_def)

theorem checkIfEventisEnabled_promise_witness:
  "checkIfEventisEnabled [''message'', ''qr''] ''ready'' = Fulfilled JUndefined
   \<and> checkIfEventisEnabled [''message'', ''qr''] ''message'' = Pending"
  using checkIfEventisEnabled_promise [of "[''message'', ''qr'']" "''ready''" True "''x''"]
        checkIfEventisEnabled_promise [of "[''message'', ''qr'']" "''message''" True "''x''"]
  by simp

text \<open>
  The claim as the specification words it (a boolean result, \<open>false\<close> for a member) fails:
  for a suppressed dataType nothing is returned to a continuation, and for an enabled one
  the value is \<open>undefined\<close>, not \<open>true\<close>.
\<close>

theorem checkIfEventisEnabled_not_boolean:
  "checkIfEventisEnabled [''message''] ''message'' \<noteq> Fulfilled (JBool False)
   \<and> checkIfEventisEnabled [''message''] ''message'' = Pending
   \<and> checkIfEventisEnabled [''message''] ''qr'' \<noteq> Fulfilled (JBool True)"
  by (simp add: checkIfEventisEnabled_def array_includes_def)

text \<open>
  C9. For every event type that is a member of the suppression list,
  \<open>checkIfEventisEnabled\<close> returns a promise that never settles: it is neither fulfilled
  nor rejected, so a continuation chained with \<open>then\<close> (and a handler chained with
  \<open>catch\<close>) never runs and the state is left as it was.
\<close>

theorem checkIfEventisEnabled_suppressed_never_settles:
  assumes "e \<in> set dc"
  shows "checkIfEventisEnabled dc e = Pending
         \<and> checkIfEventisEnabled dc e \<noteq> Fulfilled v
         \<and> checkIfEventisEnabled dc e \<noteq> Rejected err
         \<and> then_do (checkIfEventisEnabled dc e) k w = w
         \<and> catch_do (checkIfEventisEnabled dc e) h w = w"
  using assms by (simp add: checkIfEventisEnabled_def array_includes_def then_do_def catch_do_def)

theorem checkIfEventisEnabled_suppressed_never_settles_witness:
  "''message'' \<in> set [''qr'', ''message'']
   \<and> checkIfEventisEnabled [''qr'', ''message''] ''message'' = Pending
   \<and> then_do (checkIfEventisEnabled [''qr'', ''message''] ''message'')
        (\<lambda>v n. Suc n) (0::nat) = 0"
proof -
  have m: "''message'' \<in> set [''qr'', ''message'']" by simp
  show ?thesis
    using m checkIfEventisEnabled_suppressed_never_settles
              [OF m, of JUndefined "''x''" "\<lambda>v n. Suc n" "0::nat" "\<lambda>e n. n"]
    by (simp add: then_do_def)
qed

subsection \<open>Webhook dispatcher\<close>

text \<open>
  C4. For every url and envelope, \<open>triggerWebhook\<close> issues exactly one HTTP POST to the
  url, whose body is \<open>{ dataType, data, sessionId }\<close> and whose \<open>x-api-key\<close> header is
  the shared secret; it does so once whatever the network answers (no retry); when the
  delivery fails it writes one error line carrying the session id and the event type; the
  call returns \<open>undefined\<close> (it does not throw and hands no failure to its caller); and the
  session registry, the hub and the socket traces are left as they were.
\<close>

theorem triggerWebhook_fire_and_forget:
  "fst (triggerWebhook key net url sid dt data w) = Returns JUndefined
   \<and> posts (snd (triggerWebhook key net url sid dt data w)) =
       posts w @ [\<lparr>post_url = url,
                    post_body = JObj [(''dataType'', JStr dt), (''data'', data), (''sessionId'', JStr sid)],
                    post_headers = [(''x-api-key'', key)]\<rparr>]
   \<and> (net \<lparr>post_url = url,
             post_body = JObj [(''dataType'', JStr dt), (''data'', data), (''sessionId'', JStr sid)],
             post_headers = [(''x-api-key'', key)]\<rparr> = Failed err
        \<longrightarrow> logs (snd (triggerWebhook key net url sid dt data w)) =
            logs w @ [\<lparr>log_level = LvlError,
                        log_fields = [(''sessionId'', JStr sid), (''dataType'', JStr dt),
                                      (''err'', JStr err), (''data'', orEmpty data)],
                        log_msg = ''Failed to send new webhook message to '' @ url\<rparr>])
   \<and> length (logs (snd (triggerWebhook key net url sid dt data w))) = Suc (length (logs w))
   \<and> sessions (snd (triggerWebhook key net url sid dt data w)) = sessions w
   \<and> wssMap (snd (triggerWebhook key net url sid dt data w)) = wssMap w
   \<and> sent (snd (triggerWebhook key net url sid dt data w)) = sent w
   \<and> terminated (snd (triggerWebhook key net url sid dt data w)) = terminated w
   \<and> destroyed (snd (triggerWebhook key net url sid dt data w)) = destroyed w"
  by (simp add: triggerWebhook_def Let_def)

theorem triggerWebhook_fire_and_forget_witness:
  "fst (triggerWebhook ''secret'' (\<lambda>p. Failed ''ECONNREFUSED'') ''http://hook/cb'' ''s1'' ''message'' JNull world0)
     = Returns JUndefined
   \<and> map post_url (posts (snd (triggerWebhook ''secret'' (\<lambda>p. Failed ''ECONNREFUSED'') ''http://hook/cb'' ''s1''
         ''message'' JNull world0))) = [''http://hook/cb'']
   \<and> map log_level (logs (snd (triggerWebhook ''secret'' (\<lambda>p. Failed ''ECONNREFUSED'') ''http://hook/cb'' ''s1''
         ''message'' JNull world0))) = [LvlError]
   \<and> sessions (snd (triggerWebhook ''secret'' (\<lambda>p. Failed ''ECONNREFUSED'') ''http://hook/cb'' ''s1''
         ''message'' JNull world0)) = []"
  using triggerWebhook_fire_and_forget
          [of "''secret''" "\<lambda>p. Failed ''ECONNREFUSED''" "''http://hook/cb''" "''s1''" "''message''" JNull
              world0 "''ECONNREFUSED''"]
  by (simp add: world0_def triggerWebhook_def Let_def)


subsection \<open>WebSocket hub\<close>




lemma handleUpgrade_cases:
  "snd (handleUpgrade up hs req sock w) = w
   \<or> snd (handleUpgrade up hs req sock w) = socket_destroy sock w
   \<or> (\<exists>s server. wssMap w s = Some server
         \<and> snd (handleUpgrade up hs req sock w) = wss_handleUpgrade hs s server req sock w)"
  by (auto simp: handleUpgrade_def Let_def split: option.splits)






text \<open>
  C6. For every session id that has a hub entry, \<open>terminateWebSocketServer\<close> terminates
  every subscriber connection of that entry, removes the entry from the hub map (every
  other entry stays), and its promise is fulfilled exactly when the acceptor's \<open>close\<close>
  has confirmed closure (it is rejected when \<open>close\<close> reports an error and stays pending
  until \<open>close\<close> answers). For an id with no entry the promise is fulfilled at once and
  nothing at all is changed.
\<close>

theorem terminateWebSocketServer_closes:
  "(wssMap w sid = Some server \<longrightarrow>
      wssMap (snd (terminateWebSocketServer closed sid w)) = (wssMap w)(sid := None)
    \<and> terminated (snd (terminateWebSocketServer closed sid w)) = terminated w @ clients server
    \<and> closing (snd (terminateWebSocketServer closed sid w)) = closing w @ [wss_id server]
    \<and> (fst (terminateWebSocketServer closed sid w) = Fulfilled v)
        = (closed = CloseConfirmed \<and> v = JUndefined)
    \<and> (fst (terminateWebSocketServer closed sid w) = Rejected err) = (closed = CloseError err)
    \<and> (fst (terminateWebSocketServer closed sid w) = Pending) = (closed = CloseNever))
   \<and> (wssMap w sid = None \<longrightarrow>
        terminateWebSocketServer closed sid w = (Fulfilled JUndefined, w))"
  by (cases closed) (auto simp: terminateWebSocketServer_def)

theorem terminateWebSocketServer_closes_witness:
  "wssMap hub_example ''a'' = Some \<lparr>wss_id = 0, clients = [1, 2]\<rparr>
   \<and> wssMap (snd (terminateWebSocketServer CloseConfirmed ''a'' hub_example)) ''a'' = None
   \<and> wssMap (snd (terminateWebSocketServer CloseConfirmed ''a'' hub_example)) ''b''
       = Some \<lparr>wss_id = 1, clients = [3]\<rparr>
   \<and> terminated (snd (terminateWebSocketServer CloseConfirmed ''a'' hub_example)) = [1, 2]
   \<and> fst (terminateWebSocketServer CloseConfirmed ''a'' hub_example) = Fulfilled JUndefined
   \<and> wssMap hub_example ''c'' = None
   \<and> fst (terminateWebSocketServer CloseNever ''c'' hub_example) = Fulfilled JUndefined
   \<and> terminated (snd (terminateWebSocketServer CloseNever ''c'' hub_example)) = []"
  using terminateWebSocketServer_closes
          [of hub_example "''a''" "\<lparr>wss_id = 0, clients = [1, 2]\<rparr>" CloseConfirmed JUndefined "''x''"]
        terminateWebSocketServer_closes
          [of hub_example "''c''" "\<lparr>wss_id = 0, clients = [1, 2]\<rparr>" CloseNever JUndefined "''x''"]
  by (simp add: hub_example_def world0_def)






subsection \<open>Websocket mode disabled\<close>

lemma handleUpgrade_no_entries:
  assumes "wssMap w = Map.empty"
  shows "snd (handleUpgrade up hs req sock w) = w
       \<or> snd (handleUpgrade up hs req sock w) = socket_destroy sock w"
  using assms by (auto simp: handleUpgrade_def Let_def split: option.splits)

lemma hub_step_disabled:
  assumes "wssMap w = Map.empty"
  shows "wssMap (hub_step False up hs w op) = Map.empty
       \<and> sent (hub_step False up hs w op) = sent w"
proof (cases op)
  case (OpInit s)
  then show ?thesis using assms by (simp add: initWebSocketServer_def)
next
  case (OpTerminate c s)
  then show ?thesis using assms by (simp add: terminateWebSocketServer_def)
next
  case (OpTrigger s dt d)
  then show ?thesis using assms by (simp add: triggerWebSocket_def)
next
  case (OpHandleUpgrade req sock)
  then show ?thesis using assms handleUpgrade_no_entries [OF assms, of up hs req sock]
    by (auto simp: socket_destroy_def)
next
  case (OpIncomingUpgrade req sock)
  then show ?thesis using assms by (simp add: emitUpgrade_def upgradeListener_def)
qed

lemma hub_run_disabled:
  "wssMap w = Map.empty \<Longrightarrow>
   wssMap (hub_run False up hs ops w) = Map.empty
   \<and> sent (hub_run False up hs ops w) = sent w"
proof (induction ops arbitrary: w)
  case Nil
  then show ?case by (simp add: hub_run_def)
next
  case (Cons op ops)
  note st = hub_step_disabled [OF Cons.prems, of up hs op]
  from st have e: "wssMap (hub_step False up hs w op) = Map.empty" by simp
  from Cons.IH [OF e] st show ?case by (simp add: hub_run_def)
qed

text \<open>
  C10 (as amended). When websocket mode is disabled, \<open>initWebSocketServer\<close> never inserts
  an entry into the hub map for any session id; consequently, whatever is called on the
  hub from the start of the process, the hub map stays empty, \<open>triggerWebSocket\<close> sends
  nothing for every session id and every event, and \<open>handleUpgrade\<close>, whenever it is
  called with a target the URL parser accepts, destroys the socket it is given. The
  server however registers no upgrade listener in this mode: an incoming upgrade request
  does not reach \<open>handleUpgrade\<close>, and this program leaves its socket alone.
\<close>

theorem websocket_disabled_hub_stays_empty:
  "initWebSocketServer False sid w = w
   \<and> wssMap (hub_run False up hs ops world0) = Map.empty
   \<and> sent (hub_run False up hs ops world0) = []
   \<and> triggerWebSocket sid dt data (hub_run False up hs ops world0) = hub_run False up hs ops world0
   \<and> (up (req_url req) (''ws://'' @ (case req_host req of Some h \<Rightarrow> h | None \<Rightarrow> ''undefined'') @ ''/'') \<noteq> None \<longrightarrow>
        handleUpgrade up hs req sock (hub_run False up hs ops world0) =
          (Returns JUndefined, socket_destroy sock (hub_run False up hs ops world0)))
   \<and> emitUpgrade (upgradeListener False up hs) req sock w = (Returns JUndefined, w)"
proof -
  have e0: "wssMap world0 = Map.empty" by (simp add: world0_def)
  note r = hub_run_disabled [OF e0, of up hs ops]
  have t: "triggerWebSocket sid dt data (hub_run False up hs ops world0) = hub_run False up hs ops world0"
    using r by (simp add: triggerWebSocket_def)
  have h: "up (req_url req) (''ws://'' @ (case req_host req of Some h \<Rightarrow> h | None \<Rightarrow> ''undefined'') @ ''/'') \<noteq> None \<longrightarrow>
        handleUpgrade up hs req sock (hub_run False up hs ops world0) =
          (Returns JUndefined, socket_destroy sock (hub_run False up hs ops world0))"
    using r by (auto simp: handleUpgrade_def Let_def split: option.splits)
  show ?thesis
    using r t h by (simp add: initWebSocketServer_def emitUpgrade_def upgradeListener_def world0_def)
qed

theorem websocket_disabled_hub_stays_empty_witness:
  "wssMap (hub_run False path_only good_handshake sample_hub_ops world0) ''a'' = None
   \<and> sent (hub_run False path_only good_handshake sample_hub_ops world0) = []
   \<and> path_only ''/ws/a'' ''ws://localhost:3000/'' \<noteq> None
   \<and> destroyed (snd (handleUpgrade path_only good_handshake (upgrade_request ''/ws/a'') 9
        (hub_run False path_only good_handshake sample_hub_ops world0))) = [8, 9]"
  using websocket_disabled_hub_stays_empty
          [of "''a''" world0 path_only good_handshake sample_hub_ops "''message''" JNull
              "upgrade_request ''/ws/a''" 9]
  by (simp add: sample_hub_ops_def hub_run_def initWebSocketServer_def emitUpgrade_def
        upgradeListener_def handleUpgrade_def Let_def path_only_def upgrade_request_def
        startsWith_def nth_opt_def socket_destroy_def triggerWebSocket_def world0_def)

text \<open>
  The claim as the specification words it fails in its last part: with websocket mode
  disabled, an upgrade request that arrives at the server does not have its socket
  destroyed by this program. Socket 7 below arrives at the server; \<open>destroy\<close> is never
  called on it.
\<close>

theorem websocket_disabled_upgrade_not_destroyed:
  "7 \<notin> set (destroyed (hub_run False path_only good_handshake
       [OpInit ''a'', OpIncomingUpgrade (upgrade_request ''/ws/a'') 7] world0))
   \<and> destroyed (snd (emitUpgrade (upgradeListener False path_only good_handshake)
        (upgrade_request ''/ws/a'') 7 world0)) = []"
  by (simp add: hub_run_def initWebSocketServer_def emitUpgrade_def upgradeListener_def world0_def)

subsection \<open>Event dispatch\<close>

lemma dispatch_suppressed:
  "dt \<in> set dc \<Longrightarrow> env_dataType env = dt \<Longrightarrow> dispatchEnvelope dc key net url env w = w"
  by (simp add: dispatchEnvelope_def checkIfEventisEnabled_def array_includes_def then_do_def)

lemma dispatch_other:
  "env_dataType env \<noteq> dt \<Longrightarrow>
   posts_of dt (dispatchEnvelope dc key net url env w) = posts_of dt w
   \<and> sent_of dt (dispatchEnvelope dc key net url env w) = sent_of dt w"
  by (auto simp: dispatchEnvelope_def checkIfEventisEnabled_def then_do_def posts_of_def sent_of_def
        triggerWebSocket_def triggerWebhook_def Let_def split: option.splits)

lemma handleUpgrade_traffic:
  "posts (snd (handleUpgrade up hs req sock w)) = posts w
   \<and> sent (snd (handleUpgrade up hs req sock w)) = sent w"
  using handleUpgrade_cases [of up hs req sock w]
  by (auto simp: socket_destroy_def wss_handleUpgrade_def split: option.splits)

lemma core_step_suppressed:
  assumes "dt \<in> set dc"
  shows "posts_of dt (core_step dc key net en up hs w op) = posts_of dt w
       \<and> sent_of dt (core_step dc key net en up hs w op) = sent_of dt w"
proof (cases op)
  case (Emit url env)
  show ?thesis
  proof (cases "env_dataType env = dt")
    case True
    then show ?thesis using Emit assms dispatch_suppressed [of dt dc env] by simp
  next
    case False
    then show ?thesis using Emit dispatch_other [of env dt] by simp
  qed
next
  case (HubInit s)
  then show ?thesis
    by (simp add: initWebSocketServer_def posts_of_def sent_of_def split: option.splits)
next
  case (HubTerminate c s)
  then show ?thesis
    by (simp add: terminateWebSocketServer_def posts_of_def sent_of_def split: option.splits)
next
  case (HubUpgrade req sock)
  then show ?thesis
    using handleUpgrade_traffic [of up hs req sock w]
    by (simp add: emitUpgrade_def upgradeListener_def posts_of_def sent_of_def)
qed

lemma core_run_suppressed:
  "dt \<in> set dc \<Longrightarrow>
   posts_of dt (core_run dc key net en up hs ops w) = posts_of dt w
   \<and> sent_of dt (core_run dc key net en up hs ops w) = sent_of dt w"
proof (induction ops arbitrary: w)
  case Nil
  then show ?case by (simp add: core_run_def)
next
  case (Cons op ops)
  from Cons.IH [OF Cons.prems, of "core_step dc key net en up hs w op"]
       core_step_suppressed [OF Cons.prems, of key net en up hs w op]
  show ?case by (simp add: core_run_def)
qed

text \<open>
  C3. If a dataType (\<open>message\<close>, say) is in the suppression list, then dispatching an
  envelope of that dataType changes nothing: no webhook POST is issued and nothing is
  sent to any websocket subscriber. Over a whole process lifetime, in which sessions emit
  events of any kind and the hub gains and loses entries and subscribers, no POST and no
  websocket send ever carries that dataType.
\<close>

theorem suppressed_dataType_never_dispatched:
  assumes "dt \<in> set dc"
  shows "(env_dataType env = dt \<longrightarrow> dispatchEnvelope dc key net url env w = w)
       \<and> posts_of dt (core_run dc key net en up hs ops world0) = []
       \<and> sent_of dt (core_run dc key net en up hs ops world0) = []
       \<and> posts_of dt (core_run dc key net en up hs ops w) = posts_of dt w
       \<and> sent_of dt (core_run dc key net en up hs ops w) = sent_of dt w"
  using assms core_run_suppressed [OF assms, of key net en up hs ops]
        dispatch_suppressed [OF assms, of env key net url w]
  by (simp add: posts_of_def sent_of_def world0_def)

theorem suppressed_dataType_never_dispatched_witness:
  "''message'' \<in> set [''message'']
   \<and> posts_of ''message''
       (core_run [''message''] ''secret'' (\<lambda>p. Delivered) True path_only good_handshake
          sample_events world0) = []
   \<and> sent_of ''message''
       (core_run [''message''] ''secret'' (\<lambda>p. Delivered) True path_only good_handshake
          sample_events world0) = []
   \<and> map post_url (posts
       (core_run [''message''] ''secret'' (\<lambda>p. Delivered) True path_only good_handshake
          sample_events world0))
       = [''http://hook/cb'']
   \<and> map fst (sent
       (core_run [''message''] ''secret'' (\<lambda>p. Delivered) True path_only good_handshake
          sample_events world0))
       = [5]"
proof -
  have m: "''message'' \<in> set [''message'']" by simp
  show ?thesis
    using suppressed_dataType_never_dispatched
            [OF m, of "\<lparr>env_sessionId = ''a'', env_dataType = ''message'', env_data = JStr ''hi'',
                         env_timestamp = 1\<rparr>"
               "''secret''" "\<lambda>p. Delivered" "''http://hook/cb''" world0 True path_only good_handshake
               sample_events]
    by (simp add: sample_events_def core_run_def world0_def initWebSocketServer_def emitUpgrade_def
          upgradeListener_def handleUpgrade_def Let_def path_only_def upgrade_request_def
          startsWith_def nth_opt_def wss_handleUpgrade_def good_handshake_def dispatchEnvelope_def
          checkIfEventisEnabled_def array_includes_def then_do_def triggerWebhook_def
          triggerWebSocket_def)
qed


subsection \<open>Session registry\<close>

lemma active_iff:
  "active reg k = (\<exists>e\<in>set reg. fst e = k \<and> status (snd e) \<noteq> TERMINATED)"
  by (simp add: active_def list_ex_iff)

lemma transition_keeps:
  "session_id (transition ev s) = session_id s
   \<and> (status s \<noteq> TERMINATED \<longrightarrow> status (transition ev s) \<noteq> TERMINATED)"
  by (cases ev) auto

lemma map_fst_same: "(\<And>e. fst (g e) = fst e) \<Longrightarrow> map fst (map g reg) = map fst reg"
  by (induction reg) auto

lemma inactive_absent:
  assumes "reg_inv reg" and "\<not> active reg k"
  shows "k \<notin> fst ` set reg"
  using assms by (force simp: reg_inv_def active_iff list_all_iff)

lemma reg_inv_keyed:
  assumes inv: "reg_inv reg"
    and f: "\<And>s. session_id (f s) = session_id s"
    and g: "\<And>s. status s \<noteq> TERMINATED \<Longrightarrow> status (f s) \<noteq> TERMINATED"
  shows "reg_inv (map (\<lambda>e. if fst e = k then (fst e, f (snd e)) else e) reg)"
proof -
  let ?g = "\<lambda>e. if fst e = k then (fst e, f (snd e)) else e"
  have k: "map fst (map ?g reg) = map fst reg" by (rule map_fst_same) simp
  have d: "distinct (map fst (map ?g reg))"
    unfolding k using inv by (simp add: reg_inv_def)
  have l: "list_all (\<lambda>e. session_id (snd e) = fst e \<and> status (snd e) \<noteq> TERMINATED) (map ?g reg)"
    using inv f g by (auto simp: reg_inv_def list_all_iff)
  show ?thesis unfolding reg_inv_def using d l by blast
qed

lemma reg_inv_filter: "reg_inv reg \<Longrightarrow> reg_inv (filter P reg)"
  by (auto simp: reg_inv_def distinct_map_filter list_all_iff)

lemma reg_inv_step:
  assumes "reg_inv reg"
  shows "reg_inv (reg_step base reg op)"
proof (cases op)
  case (Create k ov)
  show ?thesis
  proof (cases "active reg k")
    case True
    then show ?thesis using Create assms by (simp add: create_def)
  next
    case False
    with assms have "k \<notin> fst ` set reg" by (rule inactive_absent)
    then show ?thesis using Create assms False
      by (simp add: create_def reg_inv_def Let_def)
  qed
next
  case (Terminate k)
  then show ?thesis using assms by (simp add: terminate_def reg_inv_filter)
next
  case (Restart k)
  have "reg_inv (map (\<lambda>e. if fst e = k then (fst e, (snd e)\<lparr>status := STARTING\<rparr>) else e) reg)"
    using assms by (rule reg_inv_keyed) simp_all
  then show ?thesis using Restart assms by (simp add: restart_def)
next
  case (Sweep b)
  then show ?thesis using assms by (simp add: sweep_def reg_inv_filter)
next
  case (ClientEvent k ev)
  have "reg_inv (map (\<lambda>e. if fst e = k then (fst e, transition ev (snd e)) else e) reg)"
    using assms by (rule reg_inv_keyed) (simp_all add: transition_keeps)
  then show ?thesis using ClientEvent by (simp add: on_event_def)
qed

lemma reg_inv_run: "reg_inv reg \<Longrightarrow> reg_inv (reg_run base ops reg)"
  by (induction ops arbitrary: reg) (simp_all add: reg_run_def reg_inv_step)

lemma create_conflict: "active reg k \<Longrightarrow> create k ov base reg = (Inl Conflict, reg)"
  by (simp add: create_def)

lemma create_active: "active (snd (create k ov base reg)) k"
  by (auto simp: create_def active_def Let_def)

lemma active_keyed:
  assumes a: "active reg k"
    and g: "\<And>s. status s \<noteq> TERMINATED \<Longrightarrow> status (f s) \<noteq> TERMINATED"
  shows "active (map (\<lambda>e. if fst e = k' then (fst e, f (snd e)) else e) reg) k"
proof -
  from a obtain e where e: "e \<in> set reg" "fst e = k" "status (snd e) \<noteq> TERMINATED"
    by (auto simp: active_iff)
  let ?g = "\<lambda>e. if fst e = k' then (fst e, f (snd e)) else e"
  have "?g e \<in> set (map ?g reg)" using e(1) by simp
  moreover have "fst (?g e) = k \<and> status (snd (?g e)) \<noteq> TERMINATED"
    using e g by simp
  ultimately show ?thesis unfolding active_iff by blast
qed

lemma active_step:
  assumes "active reg k" and "\<not> removes k op"
  shows "active (reg_step base reg op) k"
proof (cases op)
  case (Create k' ov)
  then show ?thesis using assms by (auto simp: create_def active_iff Let_def)
next
  case (Terminate k')
  then show ?thesis using assms by (auto simp: terminate_def active_iff)
next
  case (Restart k')
  have "active (map (\<lambda>e. if fst e = k' then (fst e, (snd e)\<lparr>status := STARTING\<rparr>) else e) reg) k"
    using assms(1) by (rule active_keyed) simp
  then show ?thesis using Restart assms by (simp add: restart_def)
next
  case (Sweep b)
  then show ?thesis using assms by simp
next
  case (ClientEvent k' ev)
  have "active (map (\<lambda>e. if fst e = k' then (fst e, transition ev (snd e)) else e) reg) k"
    using assms(1) by (rule active_keyed) (simp add: transition_keeps)
  then show ?thesis using ClientEvent by (simp add: on_event_def)
qed

lemma active_run:
  "active reg k \<Longrightarrow> \<not> list_ex (removes k) ops \<Longrightarrow> active (reg_run base ops reg) k"
  by (induction ops arbitrary: reg) (simp_all add: reg_run_def active_step)

lemma distinct_one_entry:
  "distinct (map fst reg) \<Longrightarrow> length (filter (\<lambda>e. fst e = k) reg) \<le> 1"
  by (induction reg) (auto simp: filter_empty_conv image_iff)

lemma entries_le_one: "reg_inv reg \<Longrightarrow> length (entries reg k) \<le> 1"
  using distinct_one_entry [of reg k] by (simp add: entries_def reg_inv_def)

lemma active_entries: "active reg k \<Longrightarrow> 1 \<le> length (entries reg k)"
proof -
  assume "active reg k"
  then obtain e where "e \<in> set reg" "fst e = k" by (auto simp: active_iff)
  then have "filter (\<lambda>e. fst e = k) reg \<noteq> []" by (force simp: filter_empty_conv)
  then show ?thesis by (cases "filter (\<lambda>e. fst e = k) reg") (auto simp: entries_def)
qed

lemma active_one_entry: "reg_inv reg \<Longrightarrow> active reg k \<Longrightarrow> length (entries reg k) = 1"
  using entries_le_one [of reg k] active_entries [of reg k] by simp

text \<open>
  C1. Every registry reachable from the empty one holds at most one entry per session
  id. A create request made while an active (non-terminated) session with that id exists
  fails with \<open>Conflict\<close> and returns the registry as it was. So after \<open>create(id)\<close>,
  whatever happens next short of terminating that id (or sweeping), a second \<open>create(id)\<close>
  fails with \<open>Conflict\<close>, changes nothing, and the registry holds exactly one entry for
  the id. The controller answers a failed \<open>setupSession\<close> with status 422 and the
  failure's message, without waiting for anything.
\<close>

theorem create_twice_conflict:
  "reg_inv (reg_run base ops [])
   \<and> length (entries (reg_run base ops []) k) \<le> 1
   \<and> (active reg sessionId \<longrightarrow> create sessionId ov base reg = (Inl Conflict, reg))
   \<and> (\<not> list_ex (removes sessionId) between \<longrightarrow>
        create sessionId ov2 base
          (reg_run base between (snd (create sessionId ov1 base (reg_run base ops []))))
        = (Inl Conflict, reg_run base between (snd (create sessionId ov1 base (reg_run base ops []))))
      \<and> length (entries
          (reg_run base between (snd (create sessionId ov1 base (reg_run base ops [])))) sessionId) = 1)
   \<and> (\<not> success r \<longrightarrow> startSession proto clock start (Inr r) = Some (sendErrorResponse 422 (message r)))"
proof -
  have i0: "reg_inv []" by (simp add: reg_inv_def)
  have i1: "reg_inv (reg_run base ops [])" using i0 by (rule reg_inv_run)
  have i2: "reg_inv (snd (create sessionId ov1 base (reg_run base ops [])))"
    using reg_inv_step [OF i1, of base "Create sessionId ov1"] by simp
  have c: "\<not> list_ex (removes sessionId) between \<longrightarrow>
        create sessionId ov2 base
          (reg_run base between (snd (create sessionId ov1 base (reg_run base ops []))))
        = (Inl Conflict, reg_run base between (snd (create sessionId ov1 base (reg_run base ops []))))
      \<and> length (entries
          (reg_run base between (snd (create sessionId ov1 base (reg_run base ops [])))) sessionId) = 1"
  proof
    assume n: "\<not> list_ex (removes sessionId) between"
    let ?r = "reg_run base between (snd (create sessionId ov1 base (reg_run base ops [])))"
    have a: "active ?r sessionId" using create_active n by (rule active_run)
    have i: "reg_inv ?r" using i2 by (rule reg_inv_run)
    show "create sessionId ov2 base ?r = (Inl Conflict, ?r) \<and> length (entries ?r sessionId) = 1"
      using a i by (simp add: create_conflict active_one_entry)
  qed
  show ?thesis
    using i1 entries_le_one [OF i1, of k] c by (simp add: create_conflict startSession_def)
qed

theorem create_twice_conflict_witness:
  "\<not> list_ex (removes ''a'') sample_between
   \<and> fst (create ''a'' (Some ''http://other/cb'') ''http://hook/cb''
        (reg_run ''http://hook/cb'' sample_between
           (snd (create ''a'' None ''http://hook/cb'' (reg_run ''http://hook/cb'' sample_reg_ops [])))))
       = Inl Conflict
   \<and> map fst (reg_run ''http://hook/cb'' sample_between
           (snd (create ''a'' None ''http://hook/cb'' (reg_run ''http://hook/cb'' sample_reg_ops []))))
       = [''a'']
   \<and> map fst (snd (create ''a'' None ''http://hook/cb'' (reg_run ''http://hook/cb'' sample_reg_ops [])))
       = [''b'', ''a'']
   \<and> startSession plain_proto punctual 0
       (Inr \<lparr>success = False, message = ''exists'', client = stuck_client\<rparr>)
       = Some (sendErrorResponse 422 ''exists'')"
proof -
  have n: "\<not> list_ex (removes ''a'') sample_between"
    by (simp add: sample_between_def)
  show ?thesis
    using n create_twice_conflict
              [of "''http://hook/cb''" sample_reg_ops "''a''" "[]" "''a''" None sample_between
                  "Some ''http://other/cb''" None
                  "\<lparr>success = False, message = ''exists'', client = stuck_client\<rparr>" plain_proto punctual 0]
    by (simp add: sample_between_def sample_reg_ops_def reg_run_def create_def active_def Let_def
          on_event_def restart_def terminate_def startSession_def)
qed



subsection \<open>Readiness wait\<close>

lemma truthy_nonNull: "truthy v \<Longrightarrow> nonNull v"
  by (cases v) auto

lemma checkObject_settles:
  assumes late: "M < now K - start"
  shows "k \<le> K \<Longrightarrow>
     \<exists>p n. checkObject proto root now path start M k = Some (p, n)
       \<and> k \<le> n \<and> n \<le> K
       \<and> (p = Fulfilled JUndefined \<or> p = Rejected ''Timeout waiting for nested object'')
       \<and> (p = Fulfilled JUndefined) = truthy (nested proto (root n) path)
       \<and> (p = Rejected ''Timeout waiting for nested object'')
           = (\<not> truthy (nested proto (root n) path) \<and> M < now n - start)
       \<and> (\<forall>j. k \<le> j \<and> j < n \<longrightarrow>
             \<not> truthy (nested proto (root j) path) \<and> now j - start \<le> M)"
proof (induction "K - k" arbitrary: k)
  case 0
  then have k: "k = K" by simp
  show ?case
  proof (cases "truthy (nested proto (root k) path)")
    case True
    then show ?thesis using k by (subst checkObject.simps) auto
  next
    case False
    then show ?thesis using k late by (subst checkObject.simps) auto
  qed
next
  case (Suc d)
  then have lt: "k < K" by simp
  show ?case
  proof (cases "truthy (nested proto (root k) path)")
    case True
    then show ?thesis using lt by (subst checkObject.simps) auto
  next
    case nt: False
    show ?thesis
    proof (cases "M < now k - start")
      case True
      then show ?thesis using nt lt by (subst checkObject.simps) auto
    next
      case False
      have d: "d = K - Suc k" using Suc.hyps(2) by simp
      have le: "Suc k \<le> K" using lt by simp
      from Suc.hyps(1) [OF d le] obtain p n where
        r: "checkObject proto root now path start M (Suc k) = Some (p, n)"
        and b: "Suc k \<le> n" "n \<le> K"
        and s: "p = Fulfilled JUndefined \<or> p = Rejected ''Timeout waiting for nested object''"
        and f: "(p = Fulfilled JUndefined) = truthy (nested proto (root n) path)"
        and t: "(p = Rejected ''Timeout waiting for nested object'')
                  = (\<not> truthy (nested proto (root n) path) \<and> M < now n - start)"
        and e: "\<forall>j. Suc k \<le> j \<and> j < n \<longrightarrow>
                  \<not> truthy (nested proto (root j) path) \<and> now j - start \<le> M"
        by blast
      have here: "checkObject proto root now path start M k = Some (p, n)"
        using nt False r by (subst checkObject.simps) simp
      have e': "\<forall>j. k \<le> j \<and> j < n \<longrightarrow>
                  \<not> truthy (nested proto (root j) path) \<and> now j - start \<le> M"
      proof (intro allI impI)
        fix j assume j: "k \<le> j \<and> j < n"
        show "\<not> truthy (nested proto (root j) path) \<and> now j - start \<le> M"
        proof (cases "j = k")
          case True
          then show ?thesis using nt False by simp
        next
          case False
          then have "Suc k \<le> j \<and> j < n" using j by simp
          then show ?thesis using e by blast
        qed
      qed
      have kn: "k \<le> n" using b(1) by simp
      from here kn b(2) s f t e' show ?thesis by blast
    qed
  qed
qed

lemma sample_client_objs:
  "\<forall>k. nonNull (nested plain_proto (sample_client k) ''pupPage'')
        \<longrightarrow> truthy (nested plain_proto (sample_client k) ''pupPage'')"
  by (simp add: nested_def sample_client_def plain_proto_def)

text \<open>
  C5 (as amended). For every root object and nested path whose nested value is, at every
  poll, either null or undefined or else truthy (as every object is), the readiness wait
  polls the nested field, arming a timer with the same interval after each poll that
  does not settle it, and once the clock read at some poll has passed the maximum wait
  bound (default 10000 ms, at a 100 ms interval) it has settled: it resolves at the
  first poll that finds the nested value non-null, and if no poll has found it non-null
  it rejects with the timeout error at the first poll at which the elapsed time exceeds
  the bound. The bound is looked at only when a poll runs, so until that poll the wait is
  still pending, also after the bound has passed. The controller that awaits it always
  answers.
\<close>

theorem waitForNestedObject_settles:
  assumes objs: "\<forall>k. nonNull (nested proto (root k) path) \<longrightarrow> truthy (nested proto (root k) path)"
      and M: "M = (case maxWaitTime of None \<Rightarrow> 10000 | Some m \<Rightarrow> m)"
      and I: "I = (case interval of None \<Rightarrow> 100 | Some i \<Rightarrow> i)"
      and late: "M < clock I K - start"
  shows "\<exists>p n. waitForNestedObject proto root clock start path maxWaitTime interval = Some (p, n)
       \<and> n \<le> K
       \<and> (p = Fulfilled JUndefined \<or> p = Rejected ''Timeout waiting for nested object'')
       \<and> (p = Fulfilled JUndefined) = nonNull (nested proto (root n) path)
       \<and> (p = Rejected ''Timeout waiting for nested object'')
           = (\<not> nonNull (nested proto (root n) path) \<and> M < clock I n - start)
       \<and> (\<forall>j<n. \<not> nonNull (nested proto (root j) path) \<and> clock I j - start \<le> M)
       \<and> (success sr \<and> client sr = root \<and> path = ''pupPage''
            \<and> maxWaitTime = None \<and> interval = None \<longrightarrow>
            startSession proto clock start (Inr sr) \<noteq> None)"
proof -
  have tn: "\<And>k. truthy (nested proto (root k) path) = nonNull (nested proto (root k) path)"
    using objs truthy_nonNull by blast
  from checkObject_settles [where now = "clock I" and K = K and M = M and start = start
                               and k = 0 and proto = proto and root = root and path = path]
       late
  obtain p n where
    r: "checkObject proto root (clock I) path start M 0 = Some (p, n)"
    and b: "n \<le> K"
    and s: "p = Fulfilled JUndefined \<or> p = Rejected ''Timeout waiting for nested object''"
    and f: "(p = Fulfilled JUndefined) = truthy (nested proto (root n) path)"
    and t: "(p = Rejected ''Timeout waiting for nested object'')
              = (\<not> truthy (nested proto (root n) path) \<and> M < clock I n - start)"
    and e: "\<forall>j. 0 \<le> j \<and> j < n \<longrightarrow>
              \<not> truthy (nested proto (root j) path) \<and> clock I j - start \<le> M"
    by blast
  have w: "waitForNestedObject proto root clock start path maxWaitTime interval = Some (p, n)"
    using r M I by (simp add: waitForNestedObject_def)
  have f': "(p = Fulfilled JUndefined) = nonNull (nested proto (root n) path)"
    using f tn by simp
  have t': "(p = Rejected ''Timeout waiting for nested object'')
              = (\<not> nonNull (nested proto (root n) path) \<and> M < clock I n - start)"
    using t tn by simp
  have e': "\<forall>j<n. \<not> nonNull (nested proto (root j) path) \<and> clock I j - start \<le> M"
    using e tn by simp
  have resp: "success sr \<and> client sr = root \<and> path = ''pupPage''
            \<and> maxWaitTime = None \<and> interval = None \<longrightarrow>
            startSession proto clock start (Inr sr) \<noteq> None"
    using w s by (auto simp: startSession_def promise_of_def)
  from w b s f' t' e' resp show ?thesis by blast
qed

theorem waitForNestedObject_settles_witness:
  "waitForNestedObject plain_proto sample_client punctual 0 ''pupPage'' None None
     = Some (Fulfilled JUndefined, 2)
   \<and> nonNull (nested plain_proto (sample_client 2) ''pupPage'')
   \<and> \<not> nonNull (nested plain_proto (sample_client 1) ''pupPage'')
   \<and> 10000 < punctual 100 101 - 0
   \<and> startSession plain_proto punctual 0
        (Inr \<lparr>success = True, message = ''started'', client = sample_client\<rparr>)
       = Some \<lparr>res_status = 200,
               res_body = JObj [(''success'', JBool True), (''message'', JStr ''started'')]\<rparr>"
proof -
  have l: "(10000::int) < punctual 100 101 - 0" by (simp add: punctual_def)
  have e: "waitForNestedObject plain_proto sample_client punctual 0 ''pupPage'' None None
             = Some (Fulfilled JUndefined, 2)"
    by (simp add: waitForNestedObject_def checkObject.simps nested_def sample_client_def
          plain_proto_def punctual_def)
  show ?thesis
    using e l waitForNestedObject_settles
          [where proto = plain_proto and root = sample_client and path = "''pupPage''"
             and maxWaitTime = None and interval = None and M = 10000 and I = 100
             and clock = punctual and K = 101 and start = 0
             and sr = "\<lparr>success = True, message = ''started'', client = sample_client\<rparr>",
           OF sample_client_objs]
    by (simp add: nested_def sample_client_def plain_proto_def startSession_def promise_of_def)
qed

text \<open>
  The claim as the specification words it (never pending past the bound) fails: for a
  client that never gets its \<open>pupPage\<close>, with the default bounds and punctual timers,
  poll 100 runs 10000 ms after the start, which does not exceed the bound, and the wait
  is rejected only by poll 101, 10100 ms after the start.
\<close>

theorem waitForNestedObject_pending_past_bound:
  "waitForNestedObject plain_proto stuck_client punctual 0 ''pupPage'' None None
     = Some (Rejected ''Timeout waiting for nested object'', 101)
   \<and> punctual 100 100 - 0 = 10000
   \<and> punctual 100 101 - 0 = 10100"
  by (simp add: waitForNestedObject_def checkObject.simps nested_def stuck_client_def
        plain_proto_def punctual_def)

end
